theory Spec2Isabelle
  imports Complex_Main
begin

section \<open>Conventions of the embedding\<close>

text \<open>
  The repository computes with JAX arrays of floating-point numbers. The embedding
  reads every float as a \<^typ>\<open>real\<close> and every complex float as a \<^typ>\<open>complex\<close>:
  rounding, overflow to infinity and NaN are outside the model, and division is the
  total division of HOL (\<open>x / 0 = 0\<close>, where the floats give \<open>inf\<close> or \<open>nan\<close>).
  Python integers are \<^typ>\<open>int\<close>; the dimensions of an array shape are \<^typ>\<open>nat\<close>;
  the entries of an integer array are int32 values, an \<^typ>\<open>int\<close> with the wrap-around
  written out.
  Every \<open>raise\<close> of the source is a value \<open>Inl e\<close> of the result type.
\<close>

datatype error =
    AttributeError      \<comment> \<open>a configuration error raised by \<open>__check_init__\<close>\<close>
  | ZeroDivisionError   \<comment> \<open>Python's \<open>%\<close> with a zero divisor\<close>
  | ShapeValueError     \<comment> \<open>\<open>ValueError("Shape of observed must match ImageConfig.padded_shape")\<close>\<close>
  | WeightsValueError   \<comment> \<open>\<open>ValueError("shape of weights must match shape of x.")\<close> of \<open>jnp.bincount\<close>\<close>
  | BroadcastError      \<comment> \<open>an elementwise operation on arrays of different shapes\<close>
  | ExternalError nat   \<comment> \<open>any exception raised inside an external collaborator\<close>

section \<open>Vectors and matrices of the lattice geometry\<close>

type_synonym vec3 = "real \<times> real \<times> real"
type_synonym mat3 = "vec3 \<times> vec3 \<times> vec3"

fun vec_add :: "vec3 \<Rightarrow> vec3 \<Rightarrow> vec3" where
  "vec_add (a, b, c) (x, y, z) = (a + x, b + y, c + z)"

fun vec_sub :: "vec3 \<Rightarrow> vec3 \<Rightarrow> vec3" where
  "vec_sub (a, b, c) (x, y, z) = (a - x, b - y, c - z)"

fun vec_scale :: "real \<Rightarrow> vec3 \<Rightarrow> vec3" where
  "vec_scale k (x, y, z) = (k * x, k * y, k * z)"

fun z_of :: "vec3 \<Rightarrow> real" where
  "z_of (x, y, z) = z"

text \<open>\<open>R @ r\<close> for a \<open>3 \<times> 3\<close> matrix (a triple of rows) and a vector.\<close>

fun mat_vec :: "mat3 \<Rightarrow> vec3 \<Rightarrow> vec3" where
  "mat_vec ((a, b, c), (d, e, f), (g, h, i)) (x, y, z) =
     (a * x + b * y + c * z, d * x + e * y + f * z, g * x + h * y + i * z)"

text \<open>\<open>A @ B\<close>: entry \<open>(i, k)\<close> is \<open>\<Sum>j. A[i, j] * B[j, k]\<close>.\<close>

fun mat_mul :: "mat3 \<Rightarrow> mat3 \<Rightarrow> mat3" where
  "mat_mul ((a, b, c), (d, e, f), (g, h, i)) ((p, q, r), (s, t, u), (v, w, x)) =
     ((a * p + b * s + c * v, a * q + b * t + c * w, a * r + b * u + c * x),
      (d * p + e * s + f * v, d * q + e * t + f * w, d * r + e * u + f * x),
      (g * p + h * s + i * v, g * q + h * t + i * w, g * r + h * u + i * x))"

fun transpose3 :: "mat3 \<Rightarrow> mat3" where
  "transpose3 ((a, b, c), (d, e, f), (g, h, i)) = ((a, d, g), (b, e, h), (c, f, i))"

definition eye3 :: mat3 where
  "eye3 = ((1, 0, 0), (0, 1, 0), (0, 0, 1))"

fun det3 :: "mat3 \<Rightarrow> real" where
  "det3 ((a, b, c), (d, e, f), (g, h, i)) =
     a * (e * i - f * h) - b * (d * i - f * g) + c * (d * h - e * g)"

text \<open>The invariant of a pose's rotation: orthonormal columns.\<close>

definition orthonormal :: "mat3 \<Rightarrow> bool" where
  "orthonormal R \<longleftrightarrow> mat_mul (transpose3 R) R = eye3"

definition is_rotation :: "mat3 \<Rightarrow> bool" where
  "is_rotation R \<longleftrightarrow> orthonormal R \<and> det3 R = 1"

section \<open>The helix: \<open>_assembly/_helix.py\<close>\<close>

text \<open>The fields of \<open>Helix\<close> that \<open>__check_init__\<close> reads.\<close>

record helix =
  rise :: real
  twist :: real
  n_subunits :: int
  n_start :: int
  degrees :: bool

text \<open>
  \<open>Helix.__check_init__\<close>: \<open>if self.n_subunits % self.n_start != 0: raise AttributeError\<close>.
  Python's \<open>%\<close> raises on a zero divisor and otherwise takes the sign of the divisor,
  as \<open>mod\<close> on \<^typ>\<open>int\<close> does.
\<close>

definition check_init :: "helix \<Rightarrow> error + unit" where
  "check_init h =
     (if n_start h = 0 then Inl ZeroDivisionError
      else if n_subunits h mod n_start h \<noteq> 0 then Inl AttributeError
      else Inr ())"

text \<open>\<open>jnp.deg2rad\<close>.\<close>

definition deg2rad :: "real \<Rightarrow> real" where
  "deg2rad x = x * (pi / 180)"

text \<open>
  The matrix \<open>((c, -s, 0), (s, c, 0), (0, 0, 1))\<close> that both lattice functions build,
  from the cosine and sine of an angle about the screw axis.
\<close>

definition screw_matrix :: "real \<Rightarrow> mat3" where
  "screw_matrix angle =
     (let c = cos angle; s = sin angle in ((c, - s, 0), (s, c, 0), (0, 0, 1)))"

text \<open>\<open>jnp.arange(n, dtype=float)\<close>.\<close>

definition arange :: "int \<Rightarrow> real list" where
  "arange n = map real_of_int [0..n - 1]"

text \<open>\<open>[2 * jnp.pi * n / n_start for n in range(n_start)]\<close>.\<close>

definition symmetry_angles :: "int \<Rightarrow> real list" where
  "symmetry_angles n_st = map (\<lambda>n. 2 * pi * real_of_int n / real_of_int n_st) [0..n_st - 1]"

definition compute_ith_subunit_position_in_subhelix ::
  "real \<Rightarrow> real \<Rightarrow> real \<Rightarrow> vec3 \<Rightarrow> int \<Rightarrow> vec3" where
  "compute_ith_subunit_position_in_subhelix i theta dz r_0 N =
     (let R_t = screw_matrix (i * theta);
          r_i = vec_add (mat_vec R_t r_0) (vec_scale i (0, 0, dz))
      in vec_sub r_i (0, 0, dz * real_of_int (N - 1) / 2))"

definition compute_helix_subunit_positions_per_start :: "real \<Rightarrow> vec3 list \<Rightarrow> vec3 list" where
  "compute_helix_subunit_positions_per_start symmetry_angle r =
     (let R_n = screw_matrix symmetry_angle in map (mat_vec R_n) r)"

text \<open>
  \<open>compute_helical_lattice_positions\<close>. The two \<open>vmap\<close>s are maps over the leading
  axis; the array of shape \<open>(n_start, n_subunits_per_start, 3)\<close> they produce is a list
  of lists of rows, and the final \<open>reshape\<close> to \<open>(n_start * n_subunits_per_start, 3)\<close>
  of a row-major array is their concatenation. (For negative counts \<open>range\<close> and
  \<open>arange\<close> are empty and the source's \<open>reshape\<close> may raise; the theorems below are
  about counts of at least one.)
\<close>

definition compute_helical_lattice_positions ::
  "real \<Rightarrow> real \<Rightarrow> int \<Rightarrow> vec3 \<Rightarrow> int \<Rightarrow> bool \<Rightarrow> vec3 list" where
  "compute_helical_lattice_positions rise_v twist_v n_subunits_per_start initial_displacement
       n_st degs =
     (let twist_r = (if degs then deg2rad twist_v else twist_v);
          subunit_indices = arange n_subunits_per_start;
          subunit_positions_in_subhelix =
            map (\<lambda>i. compute_ith_subunit_position_in_subhelix i twist_r rise_v
                        initial_displacement n_subunits_per_start) subunit_indices
      in concat (map (\<lambda>a. compute_helix_subunit_positions_per_start a
                              subunit_positions_in_subhelix) (symmetry_angles n_st)))"

definition compute_ith_subunit_rotation_in_subhelix :: "real \<Rightarrow> real \<Rightarrow> mat3 \<Rightarrow> mat3" where
  "compute_ith_subunit_rotation_in_subhelix i theta R_0 =
     (let R_t = screw_matrix (i * theta) in mat_mul R_t R_0)"

text \<open>\<open>jnp.einsum("ij,njk->nik", R_n, R)\<close>: every matrix of \<open>R\<close> multiplied by \<open>R_n\<close> on the left.\<close>

definition compute_helix_subunit_rotations_per_start :: "real \<Rightarrow> mat3 list \<Rightarrow> mat3 list" where
  "compute_helix_subunit_rotations_per_start symmetry_angle R =
     (let R_n = screw_matrix symmetry_angle in map (mat_mul R_n) R)"

definition compute_helical_lattice_rotations ::
  "real \<Rightarrow> int \<Rightarrow> mat3 \<Rightarrow> int \<Rightarrow> bool \<Rightarrow> mat3 list" where
  "compute_helical_lattice_rotations twist_v n_subunits_per_start initial_rotation n_st degs =
     (let twist_r = (if degs then deg2rad twist_v else twist_v);
          subunit_indices = arange n_subunits_per_start;
          subunit_rotations_in_subhelix =
            map (\<lambda>i. compute_ith_subunit_rotation_in_subhelix i twist_r initial_rotation)
              subunit_indices
      in concat (map (\<lambda>a. compute_helix_subunit_rotations_per_start a
                              subunit_rotations_in_subhelix) (symmetry_angles n_st)))"

text \<open>\<open>jnp.mean\<close> of the z-column of an array of positions.\<close>

definition mean_z :: "vec3 list \<Rightarrow> real" where
  "mean_z ps = sum_list (map z_of ps) / real (length ps)"

section \<open>The assembly: \<open>assembly/_assembly.py\<close>\<close>

text \<open>
  The pose of an assembly is an external collaborator with the contracts \<open>.offset\<close>,
  \<open>.rotation.as_matrix()\<close> and \<open>rotate(points)\<close>; its class is not part of the sources
  read here. The three are taken as parameters: the fields of a record. \<open>rotate\<close> acts
  on an array of shape \<open>(N, 3)\<close> one row at a time, so the parameter is the action on
  one row.
\<close>

record abstract_pose =
  offset :: vec3
  as_matrix :: mat3
  rotate_row :: "vec3 \<Rightarrow> vec3"

definition rotate_pose :: "abstract_pose \<Rightarrow> vec3 list \<Rightarrow> vec3 list" where
  "rotate_pose p points = map (rotate_row p) points"

text \<open>
  \<open>positions\<close> and \<open>rotations\<close> are abstract properties of \<open>Assembly\<close>, supplied by
  the subclass; here they are fields.
\<close>

record assembly =
  pose :: abstract_pose
  positions :: "vec3 list"
  rotations :: "mat3 list"

text \<open>The arguments \<open>Assembly.poses\<close> passes to \<open>MatrixPose\<close>.\<close>

record matrix_pose =
  offset_x :: "real list"
  offset_y :: "real list"
  offset_z :: "real list"
  matrix :: "mat3 list"

fun x_of :: "vec3 \<Rightarrow> real" where
  "x_of (x, y, z) = x"

fun y_of :: "vec3 \<Rightarrow> real" where
  "y_of (x, y, z) = y"

text \<open>
  \<open>Assembly.poses\<close>. \<open>jnp.einsum("nij,jk->nik", self.rotations, A)\<close> multiplies every
  lattice rotation by \<open>A\<close> on the right; \<open>+ self.pose.offset\<close> broadcasts the offset
  over the rows.
\<close>

definition poses :: "assembly \<Rightarrow> matrix_pose" where
  "poses a =
     (let transformed_positions =
            map (\<lambda>r. vec_add r (offset (pose a))) (rotate_pose (pose a) (positions a));
          transformed_rotations =
            map (\<lambda>R. mat_mul R (as_matrix (pose a))) (rotations a)
      in \<lparr>offset_x = map x_of transformed_positions,
          offset_y = map y_of transformed_positions,
          offset_z = map z_of transformed_positions,
          matrix = transformed_rotations\<rparr>)"
section \<open>Direct binning: \<open>imaging.py\<close>\<close>

text \<open>\<open>jnp.rint\<close>: the nearest integer, a tie going to the even neighbour.\<close>

definition rint :: "real \<Rightarrow> int" where
  "rint x =
     (let f = \<lfloor>x\<rfloor>; d = x - real_of_int f
      in if d < 1 / 2 then f else if 1 / 2 < d then f + 1
         else if even f then f else f + 1)"

text \<open>
  An array of integers is an int32 array, the default integer type of JAX: every entry
  lies between \<open>-2\<^sup>3\<^sup>1\<close> and \<open>2\<^sup>3\<^sup>1 - 1\<close>, and the result of an addition or a
  multiplication wraps around into that range.
\<close>

definition wrap32 :: "int \<Rightarrow> int" where
  "wrap32 i = (i + 2147483648) mod 4294967296 - 2147483648"

text \<open>
  \<open>.astype(int)\<close> of a rounded float: a whole number outside the int32 range becomes the
  nearest int32 value.
\<close>

definition astype_int :: "int \<Rightarrow> int" where
  "astype_int i = max (- 2147483648) (min 2147483647 i)"

text \<open>\<open>jnp.clip(i, 0, s - 1)\<close>, which is \<open>minimum(maximum(i, 0), s - 1)\<close>.\<close>

definition clip :: "int \<Rightarrow> nat \<Rightarrow> int" where
  "clip i s = min (max i 0) (int s - 1)"

text \<open>
  \<open>jnp.ravel_multi_index((ys, zs), (N2, N3), mode='clip')\<close>: the clipped indices are
  combined to \<open>y * N3 + z\<close> in int32 arithmetic.
\<close>

definition ravel_multi_index :: "int list \<times> int list \<Rightarrow> nat \<times> nat \<Rightarrow> int list" where
  "ravel_multi_index idx dims =
     (case (idx, dims) of
        ((ys, zs), (N2, N3)) \<Rightarrow>
          map2 (\<lambda>y z. wrap32 (clip y N2 * int N3 + clip z N3)) ys zs)"

text \<open>
  \<open>jnp.bincount(x, weights=w, length=n)\<close>: a weights array of another shape raises;
  otherwise it is \<open>zeros(n).at[clip(x, 0)].add(w)\<close>, where a negative index counts as
  \<open>0\<close> and an index of \<open>n\<close> or more is dropped. Entry \<open>k\<close> is the sum of the weights
  whose index is \<open>k\<close>.
\<close>

definition bincount :: "int list \<Rightarrow> real list \<Rightarrow> nat \<Rightarrow> error + real list" where
  "bincount x weights n =
     (if length x \<noteq> length weights then Inl WeightsValueError
      else Inr (map (\<lambda>k. sum_list (map snd (filter (\<lambda>p. max (fst p) 0 = int k) (zip x weights))))
                  [0..<n]))"

text \<open>\<open>.reshape((N2, N3))\<close> of a flat row-major array: \<open>N2\<close> rows of \<open>N3\<close> entries.\<close>

definition reshape2 :: "'a list \<Rightarrow> nat \<times> nat \<Rightarrow> 'a list list" where
  "reshape2 xs dims = (case dims of (N2, N3) \<Rightarrow> map (\<lambda>i. take N3 (drop (i * N3) xs)) [0..<N2])"

text \<open>
  \<open>project(volume, coords, shape)\<close>: \<open>volume\<close> is the array of weights, one for each of
  the rows of \<open>coords\<close>. The rounded coordinates are cast to int32, and adding
  \<open>N2 // 2\<close> or \<open>N3 // 2\<close> to them wraps around. The shape is meant to have fewer than
  \<open>2\<^sup>3\<^sup>1\<close> pixels, so that \<open>N2 // 2\<close>, \<open>N2 - 1\<close> and \<open>N3\<close> are int32 values themselves.
\<close>

definition project :: "real list \<Rightarrow> vec3 list \<Rightarrow> nat \<times> nat \<Rightarrow> error + real list list" where
  "project volume coords dims =
     (case dims of (N2, N3) \<Rightarrow>
        (let rounded_coords =
               map (\<lambda>c. (astype_int (rint (x_of c)), astype_int (rint (y_of c)),
                          astype_int (rint (z_of c)))) coords;
             y_coords = map (\<lambda>c. wrap32 (fst (snd c) + int N2 div 2)) rounded_coords;
             z_coords = map (\<lambda>c. wrap32 (snd (snd c) + int N3 div 2)) rounded_coords;
             flat_coords = ravel_multi_index (y_coords, z_coords) (N2, N3)
         in case bincount flat_coords volume (N2 * N3) of
              Inl e \<Rightarrow> Inl e
            | Inr counts \<Rightarrow> Inr (reshape2 counts (N2, N3))))"

text \<open>
  The index along one axis of \<open>n\<close> pixels that \<open>project\<close> computes for the coordinate
  \<open>v\<close>: rounded, cast, shifted by \<open>n // 2\<close> and clipped.
\<close>

definition pixel_index :: "real \<Rightarrow> nat \<Rightarrow> int" where
  "pixel_index v n = clip (wrap32 (astype_int (rint v) + int n div 2)) n"

text \<open>\<open>jnp.sum\<close> of a two-dimensional array.\<close>

definition sum_image :: "real list list \<Rightarrow> real" where
  "sum_image img = sum_list (map sum_list img)"

section \<open>Projection by a non-uniform FFT: \<open>_scattering/_nufft_project.py\<close>\<close>

text \<open>A row of \<open>coordinate_list\<close>, of shape \<open>(N, 2)\<close> or \<open>(N, 3)\<close>.\<close>

datatype cloud_coords = Coords2D real real | Coords3D real real real

text \<open>\<open>coordinate_list[:, :2]\<close>, row by row.\<close>

fun xy_of :: "cloud_coords \<Rightarrow> real \<times> real" where
  "xy_of (Coords2D x y) = (x, y)"
| "xy_of (Coords3D x y z) = (x, y)"

text \<open>
  \<open>jnp.fft.ifftshift\<close> on both axes: every axis of length \<open>n\<close> is rolled by
  \<open>-(n // 2)\<close>, so that entry \<open>i\<close> of the result is entry \<open>(i + n // 2) mod n\<close>.
\<close>

definition ifftshift :: "'a list list \<Rightarrow> 'a list list" where
  "ifftshift rows = map (\<lambda>r. rotate (length r div 2) r) (rotate (length rows div 2) rows)"

text \<open>\<open>projection.at[:, -1].set(v)\<close>: the last entry of every row.\<close>

definition set_last_column :: "'a list list \<Rightarrow> 'a \<Rightarrow> 'a list list" where
  "set_last_column rows v = map (\<lambda>r. r[length r - 1 := v]) rows"

text \<open>\<open>projection.at[k, :].set(v)\<close>: an index out of bounds is dropped.\<close>

definition set_row :: "'a list list \<Rightarrow> nat \<Rightarrow> 'a \<Rightarrow> 'a list list" where
  "set_row rows k v = (if k < length rows then rows[k := map (\<lambda>_. v) (rows ! k)] else rows)"

text \<open>
  The type of \<open>jax_finufft.nufft1\<close>, an external library: the requested shape, the
  complex weights, the two coordinate arrays, \<open>eps\<close> and \<open>iflag\<close>, giving the array of
  Fourier modes. It is a parameter of \<open>project_with_nufft\<close>.
\<close>

type_synonym nufft1_fn =
  "nat \<times> nat \<Rightarrow> complex list \<Rightarrow> real list \<Rightarrow> real list \<Rightarrow> real \<Rightarrow> int \<Rightarrow> complex list list"

definition project_with_nufft ::
  "nufft1_fn \<Rightarrow> real list \<Rightarrow> cloud_coords list \<Rightarrow> nat \<times> nat \<Rightarrow> real \<Rightarrow> complex list list" where
  "project_with_nufft nufft1 weights coordinate_list dims eps =
     (case dims of (M1, M2) \<Rightarrow>
        (let cweights = map complex_of_real weights;
             coordinates_xy = map xy_of coordinate_list;
             coordinates_periodic =
               map (\<lambda>c. (2 * pi * fst c / real M1, 2 * pi * snd c / real M2)) coordinates_xy;
             x = map fst coordinates_periodic;
             y = map snd coordinates_periodic;
             projection = nufft1 (M1, M2) cweights y x eps (- 1);
             projection = map (take (M2 div 2 + 1)) (ifftshift projection);
             projection = (if M2 mod 2 = 0 then set_last_column projection 0 else projection);
             projection = (if M1 mod 2 = 0 then set_row projection (M1 div 2) 0 else projection)
         in projection))"

section \<open>The Gaussian distribution: \<open>inference/distributions/_gaussian_distributions.py\<close>\<close>

text \<open>
  An array is its shape and its entries in row-major order. A frequency grid has the
  two components of a frequency on its last axis; here a frequency is one entry of the
  grid, so that \<open>shape\<close> of a grid is the source's \<open>freqs.shape[:-1]\<close>.
\<close>

record 'a ndarray =
  shape :: "nat list"
  data :: "'a list"

type_synonym freq = "real \<times> real"

text \<open>\<open>array.size\<close>.\<close>

definition size_of :: "'a ndarray \<Rightarrow> nat" where
  "size_of a = prod_list (shape a)"

text \<open>
  An elementwise operation on two arrays of one shape. Arrays of different shapes,
  also those NumPy would broadcast, are an error of the model.
\<close>

definition elementwise ::
  "('a \<Rightarrow> 'b \<Rightarrow> 'c) \<Rightarrow> 'a ndarray \<Rightarrow> 'b ndarray \<Rightarrow> error + 'c ndarray" where
  "elementwise f a b =
     (if shape a = shape b then Inr \<lparr>shape = shape a, data = map2 f (data a) (data b)\<rparr>
      else Inl BroadcastError)"

definition map_array :: "('a \<Rightarrow> 'b) \<Rightarrow> 'a ndarray \<Rightarrow> 'b ndarray" where
  "map_array f a = \<lparr>shape = shape a, data = map f (data a)\<rparr>"

text \<open>
  The pipeline is an external collaborator: its frequency grids, \<open>render\<close> (called with
  \<open>view_cropped\<close> and \<open>get_real\<close>) and \<open>crop_and_apply_operators\<close> (called with the
  keyword \<open>get_real\<close>, or without it) are parameters. A collaborator returns an array
  or raises an exception of its own, numbered by a \<^typ>\<open>nat\<close>.
\<close>

record abstract_pipeline =
  padded_frequency_grid_in_angstroms :: "freq ndarray"
  frequency_grid_in_angstroms :: "freq ndarray"
  render :: "bool \<Rightarrow> bool \<Rightarrow> nat + complex ndarray"
  crop_and_apply_operators :: "complex ndarray \<Rightarrow> bool option \<Rightarrow> nat + complex ndarray"

text \<open>
  The variance operator is a function of spatial frequency giving the variance of a
  mode; called on a grid it is evaluated at every frequency of the grid.
\<close>

record independent_fourier_gaussian =
  pipeline :: abstract_pipeline
  variance :: "freq \<Rightarrow> real"

definition external :: "nat + 'a \<Rightarrow> error + 'a" where
  "external r = (case r of Inl n \<Rightarrow> Inl (ExternalError n) | Inr v \<Rightarrow> Inr v)"

definition and_then :: "error + 'a \<Rightarrow> ('a \<Rightarrow> error + 'b) \<Rightarrow> error + 'b" where
  "and_then r f = (case r of Inl e \<Rightarrow> Inl e | Inr v \<Rightarrow> f v)"

text \<open>
  \<open>jr.normal(key, shape)\<close>: one standard normal draw for every entry of the shape. The
  generator is a parameter: \<open>draws key i\<close> is the \<open>i\<close>-th draw under \<open>key\<close>.
\<close>

definition jr_normal :: "(nat \<Rightarrow> nat \<Rightarrow> real) \<Rightarrow> nat \<Rightarrow> nat list \<Rightarrow> real ndarray" where
  "jr_normal draws key shp = \<lparr>shape = shp, data = map (draws key) [0..<prod_list shp]\<rparr>"

text \<open>\<open>IndependentFourierGaussian.sample(key, **kwargs)\<close>.\<close>

definition sample ::
  "independent_fourier_gaussian \<Rightarrow> (nat \<Rightarrow> nat \<Rightarrow> real) \<Rightarrow> nat \<Rightarrow> bool option
     \<Rightarrow> error + complex ndarray" where
  "sample d draws key kwargs =
     (let freqs = padded_frequency_grid_in_angstroms (pipeline d)
      in and_then (elementwise (\<lambda>v n. v * n) (map_array (variance d) freqs)
                     (jr_normal draws key (shape freqs)))
           (\<lambda>noise. and_then (external (render (pipeline d) False False))
           (\<lambda>image. and_then (elementwise (\<lambda>z n. z + complex_of_real n) image noise)
           (\<lambda>noisy. external (crop_and_apply_operators (pipeline d) noisy kwargs)))))"

text \<open>\<open>IndependentFourierGaussian.log_probability(observed)\<close>.\<close>

definition log_probability ::
  "independent_fourier_gaussian \<Rightarrow> complex ndarray \<Rightarrow> error + real" where
  "log_probability d observed =
     (let padded_freqs = padded_frequency_grid_in_angstroms (pipeline d);
          freqs = frequency_grid_in_angstroms (pipeline d)
      in if shape observed \<noteq> shape padded_freqs then Inl ShapeValueError
         else and_then (external (render (pipeline d) False False))
           (\<lambda>image. and_then (elementwise (\<lambda>z w. z - w) image observed)
           (\<lambda>residuals. and_then
                (external (crop_and_apply_operators (pipeline d) residuals (Some False)))
           (\<lambda>residuals. and_then
                (elementwise (\<lambda>z v. z / complex_of_real v)
                   (map_array (\<lambda>z. z * cnj z) residuals)
                   (map_array (\<lambda>v. 2 * v) (map_array (variance d) freqs)))
           (\<lambda>terms. Inr (Re (sum_list (data terms)) / real (size_of residuals)))))))"

section \<open>Construction of a helix\<close>

text \<open>
  C8. For a start number of at least one, constructing a helix raises the
  configuration error exactly when the number of subunits is not a multiple of the
  start number; an exact multiple passes the check.
\<close>

theorem check_init_raises_iff:
  "1 \<le> n_start h \<Longrightarrow>
     (check_init h = Inl AttributeError \<longleftrightarrow> n_subunits h mod n_start h \<noteq> 0) \<and>
     (n_subunits h mod n_start h = 0 \<longleftrightarrow> check_init h = Inr ())"
  by (simp add: check_init_def)

theorem check_init_raises_iff_witness:
  "1 \<le> n_start \<lparr>rise = 1, twist = 30, n_subunits = 7, n_start = 2, degrees = True\<rparr> \<and>
   check_init \<lparr>rise = 1, twist = 30, n_subunits = 7, n_start = 2, degrees = True\<rparr>
     = Inl AttributeError \<and>
   check_init \<lparr>rise = 1, twist = 30, n_subunits = 6, n_start = 2, degrees = True\<rparr> = Inr ()"
  using check_init_raises_iff
          [of "\<lparr>rise = 1, twist = 30, n_subunits = 7, n_start = 2, degrees = True\<rparr>"]
        check_init_raises_iff
          [of "\<lparr>rise = 1, twist = 30, n_subunits = 6, n_start = 2, degrees = True\<rparr>"]
  by simp

section \<open>Facts about the geometry\<close>

lemma mat3_cases:
  obtains a b c d e f g h i where "M = (((a, b, c), (d, e, f), (g, h, i)) :: mat3)"
  by (metis surj_pair)


lemma det3_mat_mul: "det3 (mat_mul A B) = det3 A * det3 B"
  by (cases A rule: mat3_cases; cases B rule: mat3_cases) (simp add: algebra_simps)

lemma orthonormal_mat_mul:
  assumes "orthonormal A" "orthonormal B"
  shows "orthonormal (mat_mul A B)"
proof -
  have tr: "transpose3 (mat_mul A B) = mat_mul (transpose3 B) (transpose3 A)"
    by (cases A rule: mat3_cases; cases B rule: mat3_cases) (simp add: algebra_simps)
  have assoc: "mat_mul (mat_mul X Y) Z = mat_mul X (mat_mul Y Z)" for X Y Z
    by (cases X rule: mat3_cases; cases Y rule: mat3_cases; cases Z rule: mat3_cases)
       (simp add: algebra_simps)
  have idl: "mat_mul eye3 X = X" for X
    by (cases X rule: mat3_cases) (simp add: eye3_def)
  have "mat_mul (transpose3 (mat_mul A B)) (mat_mul A B) =
        mat_mul (transpose3 B) (mat_mul (mat_mul (transpose3 A) A) B)"
    by (simp add: tr assoc)
  also have "\<dots> = eye3"
    using assms by (simp add: orthonormal_def idl)
  finally show ?thesis by (simp add: orthonormal_def)
qed

lemma is_rotation_screw_matrix: "is_rotation (screw_matrix a)"
proof -
  have "cos a * cos a + sin a * sin a = 1"
    using sin_cos_squared_add2 [of a] by (simp add: power2_eq_square)
  then show ?thesis
    by (simp add: is_rotation_def orthonormal_def screw_matrix_def Let_def eye3_def algebra_simps)
qed

lemma is_rotation_mat_mul: "is_rotation A \<Longrightarrow> is_rotation B \<Longrightarrow> is_rotation (mat_mul A B)"
  by (simp add: is_rotation_def orthonormal_mat_mul det3_mat_mul)

lemma rotations_are_rotations:
  assumes "is_rotation R0" "M \<in> set (compute_helical_lattice_rotations t m R0 n g)"
  shows "is_rotation M"
  using assms
  by (auto simp: compute_helical_lattice_rotations_def Let_def
        compute_helix_subunit_rotations_per_start_def compute_ith_subunit_rotation_in_subhelix_def
        intro!: is_rotation_mat_mul is_rotation_screw_matrix)



lemma length_arange: "length (arange n) = nat n"
  by (simp add: arange_def)

lemma length_symmetry_angles: "length (symmetry_angles n) = nat n"
  by (simp add: symmetry_angles_def)

lemma length_concat_const:
  "(\<And>a. a \<in> set as \<Longrightarrow> length (f a) = k) \<Longrightarrow> length (concat (map f as)) = length as * k"
  by (induction as) auto

lemma sum_list_concat_const:
  "(\<And>a. a \<in> set as \<Longrightarrow> sum_list (map g (f a)) = (s::real)) \<Longrightarrow>
     sum_list (map g (concat (map f as))) = real (length as) * s"
  by (induction as) (auto simp: algebra_simps)

lemma z_of_mat_vec_screw: "z_of (mat_vec (screw_matrix a) v) = z_of v"
  by (cases v) (simp add: screw_matrix_def Let_def)

lemma z_of_ith_position:
  "z_of (compute_ith_subunit_position_in_subhelix i theta dz r_0 N) =
     z_of r_0 + i * dz - dz * real_of_int (N - 1) / 2"
  by (cases r_0) (simp add: compute_ith_subunit_position_in_subhelix_def screw_matrix_def Let_def)

lemma upto_snoc_nat: "[0..int (Suc k) - 1] = [0..int k - 1] @ [int k]"
  using upto_rec2 [of 0 "int k"] by simp

lemma sum_list_arange_nat:
  "sum_list (map (\<lambda>i. c + i * dz) (arange (int k))) = real k * c + dz * (real k * (real k - 1) / 2)"
proof (induction k)
  case 0
  then show ?case by (simp add: arange_def)
next
  case (Suc k)
  have "arange (int (Suc k)) = arange (int k) @ [real k]"
    unfolding arange_def using upto_snoc_nat [of k] by simp
  with Suc show ?case by (simp add: field_simps)
qed

lemma length_positions:
  "0 \<le> n_st \<Longrightarrow> 0 \<le> m \<Longrightarrow>
   length (compute_helical_lattice_positions r t m d n_st g) = nat (n_st * m)"
  by (simp add: compute_helical_lattice_positions_def Let_def length_concat_const
      compute_helix_subunit_positions_per_start_def length_arange length_symmetry_angles
      nat_mult_distrib)

lemma length_rotations:
  "0 \<le> n_st \<Longrightarrow> 0 \<le> m \<Longrightarrow>
   length (compute_helical_lattice_rotations t m R n_st g) = nat (n_st * m)"
  by (simp add: compute_helical_lattice_rotations_def Let_def length_concat_const
      compute_helix_subunit_rotations_per_start_def length_arange length_symmetry_angles
      nat_mult_distrib)

lemma sum_z_positions:
  assumes "0 \<le> n_st" "0 \<le> m"
  shows "sum_list (map z_of (compute_helical_lattice_positions r t m d n_st g)) =
     real (nat (n_st * m)) * z_of d"
proof -
  obtain k where k: "m = int k" using assms(2) nonneg_int_cases by blast
  define th where "th = (if g then deg2rad t else t)"
  define sub where "sub = map (\<lambda>i. compute_ith_subunit_position_in_subhelix i th r d m) (arange m)"
  have "map z_of sub = map (\<lambda>i. (z_of d - r * real_of_int (m - 1) / 2) + i * r) (arange m)"
    by (simp add: sub_def z_of_ith_position algebra_simps)
  then have "sum_list (map z_of sub) = real k * (z_of d - r * real_of_int (m - 1) / 2) + r * (real k * (real k - 1) / 2)"
    using sum_list_arange_nat [of "z_of d - r * real_of_int (m - 1) / 2" r k] k by simp
  also have "\<dots> = real k * z_of d" using k by (simp add: algebra_simps)
  finally have s: "sum_list (map z_of sub) = real k * z_of d" .
  have "sum_list (map z_of (concat (map (\<lambda>a. compute_helix_subunit_positions_per_start a sub) (symmetry_angles n_st)))) =
     real (length (symmetry_angles n_st)) * (real k * z_of d)"
    by (rule sum_list_concat_const)
       (simp add: compute_helix_subunit_positions_per_start_def o_def z_of_mat_vec_screw s [symmetric])
  then show ?thesis
    using assms k
    by (simp add: compute_helical_lattice_positions_def Let_def sub_def th_def
        length_symmetry_angles nat_mult_distrib)
qed


lemma nth_concat_const:
  "(\<And>a. a \<in> set as \<Longrightarrow> length (f a) = k) \<Longrightarrow> s < length as \<Longrightarrow> i < k \<Longrightarrow>
     concat (map f as) ! (s * k + i) = f (as ! s) ! i"
proof (induction as arbitrary: s)
  case Nil
  then show ?case by simp
next
  case (Cons a as)
  show ?case
  proof (cases s)
    case 0
    with Cons.prems show ?thesis by (simp add: nth_append)
  next
    case (Suc t)
    have "concat (map f (a # as)) ! (s * k + i) = concat (map f as) ! (t * k + i)"
      using Cons.prems(1) [of a] Suc by (simp add: nth_append)
    also have "\<dots> = f (as ! t) ! i"
      using Cons.prems Suc by (intro Cons.IH) auto
    finally show ?thesis using Suc by simp
  qed
qed

lemma arange_nth: "i < nat n \<Longrightarrow> arange n ! i = real i"
  by (simp add: arange_def)

lemma z_positions_nth:
  assumes "s < nat n_st" "i < nat m"
  shows "z_of (compute_helical_lattice_positions r t m d n_st g ! (s * nat m + i)) =
           z_of d + real i * r - r * real_of_int (m - 1) / 2"
proof -
  define th where "th = (if g then deg2rad t else t)"
  define sub where "sub = map (\<lambda>i. compute_ith_subunit_position_in_subhelix i th r d m) (arange m)"
  have len: "length (compute_helix_subunit_positions_per_start a sub) = nat m" for a
    by (simp add: compute_helix_subunit_positions_per_start_def sub_def length_arange)
  have "compute_helical_lattice_positions r t m d n_st g ! (s * nat m + i) =
          compute_helix_subunit_positions_per_start (symmetry_angles n_st ! s) sub ! i"
    unfolding compute_helical_lattice_positions_def Let_def th_def [symmetric] sub_def [symmetric]
    using assms by (intro nth_concat_const) (simp_all add: len length_symmetry_angles)
  also have "\<dots> = mat_vec (screw_matrix (symmetry_angles n_st ! s))
                      (compute_ith_subunit_position_in_subhelix (real i) th r d m)"
    using assms by (simp add: compute_helix_subunit_positions_per_start_def sub_def
        length_arange arange_nth)
  finally show ?thesis
    by (simp add: z_of_mat_vec_screw z_of_ith_position)
qed

section \<open>The helical lattice\<close>

text \<open>
  C2 (as amended). For counts \<open>n_start\<close> and \<open>n_subunits_per_start\<close> of at least one, and
  for every initial displacement and initial rotation, the positions and the rotations
  each have exactly \<open>n_start * n_subunits_per_start\<close> rows. Row \<open>i\<close> of every sub-helix has
  the z-coordinate of the initial displacement, plus \<open>i\<close> rises, minus
  \<open>rise * (n_subunits_per_start - 1) / 2\<close>; so the mean z-coordinate of the positions is
  the z-coordinate of the initial displacement, which is 0 when that coordinate is 0.
\<close>

theorem lattice_rows_and_mean_z:
  assumes "1 \<le> n_st" "1 \<le> m"
  shows "length (compute_helical_lattice_positions r t m d n_st g) = nat (n_st * m) \<and>
         length (compute_helical_lattice_rotations t m R n_st g) = nat (n_st * m) \<and>
         mean_z (compute_helical_lattice_positions r t m d n_st g) = z_of d \<and>
         (\<forall>s < nat n_st. \<forall>i < nat m.
            z_of (compute_helical_lattice_positions r t m d n_st g ! (s * nat m + i)) =
              z_of d + real i * r - r * real_of_int (m - 1) / 2)"
proof -
  have pos: "0 < n_st * m" using assms by simp
  have "mean_z (compute_helical_lattice_positions r t m d n_st g) = z_of d"
    using assms pos by (simp add: mean_z_def sum_z_positions length_positions)
  then show ?thesis
    using assms by (simp add: length_positions length_rotations z_positions_nth)
qed

theorem lattice_rows_and_mean_z_witness:
  "(1::int) \<le> 2 \<and> (1::int) \<le> 3 \<and>
   length (compute_helical_lattice_positions 2 30 3 (1, 0, 5) 2 True) = 6 \<and>
   length (compute_helical_lattice_rotations 30 3 eye3 2 True) = 6 \<and>
   mean_z (compute_helical_lattice_positions 2 30 3 (1, 0, 5) 2 True) = 5 \<and>
   z_of (compute_helical_lattice_positions 2 30 3 (1, 0, 5) 2 True ! 5) = 7"
proof -
  have a: "(1::int) \<le> 2" and b: "(1::int) \<le> 3" by simp_all
  note th = lattice_rows_and_mean_z [OF a b, of 2 30 "(1, 0, 5)" True eye3]
  from th have l1: "length (compute_helical_lattice_positions 2 30 3 (1, 0, 5) 2 True) = nat (2 * 3)"
    by (rule conjunct1)
  from th have l2: "length (compute_helical_lattice_rotations 30 3 eye3 2 True) = nat (2 * 3)"
    by (elim conjE)
  from th have mz: "mean_z (compute_helical_lattice_positions 2 30 3 (1, 0, 5) 2 True) = z_of (1, 0, 5)"
    by (elim conjE)
  from th have "\<forall>s < nat 2. \<forall>i < nat 3.
      z_of (compute_helical_lattice_positions 2 30 3 (1, 0, 5) 2 True ! (s * nat 3 + i)) =
        z_of (1, 0, 5) + real i * 2 - 2 * real_of_int (3 - 1) / 2"
    by (elim conjE)
  then have "(1::nat) < nat 2 \<longrightarrow> (2::nat) < nat 3 \<longrightarrow>
      z_of (compute_helical_lattice_positions 2 30 3 (1, 0, 5) 2 True ! (1 * nat 3 + 2)) =
        z_of (1, 0, 5) + real 2 * 2 - 2 * real_of_int (3 - 1) / 2"
    by blast
  then have z: "z_of (compute_helical_lattice_positions 2 30 3 (1, 0, 5) 2 True ! 5) = 7"
    by simp
  from l1 l2 mz z show ?thesis by simp
qed

text \<open>
  C2 as stated fails: one subunit on one start, displaced by one along the screw axis,
  stays at height one, so the mean z-coordinate is not 0.
\<close>

theorem mean_z_counterexample:
  "mean_z (compute_helical_lattice_positions 1 0 1 (0, 0, 1) 1 True) \<noteq> 0"
  by (simp add: mean_z_def compute_helical_lattice_positions_def arange_def symmetry_angles_def
      deg2rad_def compute_helix_subunit_positions_per_start_def
      compute_ith_subunit_position_in_subhelix_def screw_matrix_def)

text \<open>
  C10. For every twist, counts of at least one and an initial rotation that is
  orthonormal with determinant one, every one of the \<open>n_start * n_subunits_per_start\<close>
  lattice rotations is orthonormal with determinant one.
\<close>

theorem lattice_rotations_are_rotations:
  assumes "1 \<le> n_st" "1 \<le> m" "orthonormal R0" "det3 R0 = 1"
  shows "\<forall>k < nat (n_st * m).
           orthonormal (compute_helical_lattice_rotations t m R0 n_st g ! k) \<and>
           det3 (compute_helical_lattice_rotations t m R0 n_st g ! k) = 1"
proof (intro allI impI)
  fix k assume "k < nat (n_st * m)"
  then have "compute_helical_lattice_rotations t m R0 n_st g ! k
               \<in> set (compute_helical_lattice_rotations t m R0 n_st g)"
    using assms by (simp add: length_rotations)
  moreover have "is_rotation R0"
    using assms by (simp add: is_rotation_def)
  ultimately have "is_rotation (compute_helical_lattice_rotations t m R0 n_st g ! k)"
    by (rule rotations_are_rotations [rotated])
  then show "orthonormal (compute_helical_lattice_rotations t m R0 n_st g ! k) \<and>
             det3 (compute_helical_lattice_rotations t m R0 n_st g ! k) = 1"
    by (simp add: is_rotation_def)
qed

theorem lattice_rotations_are_rotations_witness:
  "(1::int) \<le> 2 \<and> (1::int) \<le> 3 \<and> orthonormal eye3 \<and> det3 eye3 = 1 \<and>
   orthonormal (compute_helical_lattice_rotations 30 3 eye3 2 True ! 5) \<and>
   det3 (compute_helical_lattice_rotations 30 3 eye3 2 True ! 5) = 1"
proof -
  have a: "(1::int) \<le> 2" and b: "(1::int) \<le> 3" by simp_all
  have c: "orthonormal eye3" and d: "det3 eye3 = 1"
    by (simp_all add: orthonormal_def eye3_def)
  have "(5::nat) < nat (2 * 3) \<longrightarrow>
          orthonormal (compute_helical_lattice_rotations 30 3 eye3 2 True ! 5) \<and>
          det3 (compute_helical_lattice_rotations 30 3 eye3 2 True ! 5) = 1"
    using lattice_rotations_are_rotations [OF a b c d, of 30 True] by blast
  then have "orthonormal (compute_helical_lattice_rotations 30 3 eye3 2 True ! 5) \<and>
          det3 (compute_helical_lattice_rotations 30 3 eye3 2 True ! 5) = 1"
    by simp
  with a b c d show ?thesis by blast
qed

section \<open>The poses of an assembly\<close>

lemma vec3_components: "(x_of v, y_of v, z_of v) = v"
  by (cases v) simp

text \<open>
  C4. For an assembly with lattice positions \<open>p_i\<close> and lattice rotations \<open>R_i\<close>, the
  poses give every subunit \<open>i\<close> the offset that is the assembly's rotation applied to
  \<open>p_i\<close> plus the assembly's offset, and the rotation \<open>R_i\<close> multiplied on the right by
  the matrix of the assembly's rotation.
\<close>

theorem poses_transform_each_subunit:
  assumes "i < length (positions a)" "i < length (rotations a)"
  shows "(offset_x (poses a) ! i, offset_y (poses a) ! i, offset_z (poses a) ! i) =
           vec_add (rotate_row (pose a) (positions a ! i)) (offset (pose a)) \<and>
         matrix (poses a) ! i = mat_mul (rotations a ! i) (as_matrix (pose a)) \<and>
         length (offset_x (poses a)) = length (positions a) \<and>
         length (offset_y (poses a)) = length (positions a) \<and>
         length (offset_z (poses a)) = length (positions a) \<and>
         length (matrix (poses a)) = length (rotations a)"
  using assms by (simp add: poses_def Let_def rotate_pose_def vec3_components)

theorem poses_transform_each_subunit_witness:
  "(1::nat) < length [(1, 0, 0), (0, 2, 0 :: real)] \<and>
   (1::nat) < length [eye3, ((0, - 1, 0), (1, 0, 0), (0, 0, 1))] \<and>
   (offset_x (poses \<lparr>pose = \<lparr>offset = (10, 20, 30), as_matrix = ((0, - 1, 0), (1, 0, 0), (0, 0, 1)),
                              rotate_row = mat_vec ((0, - 1, 0), (1, 0, 0), (0, 0, 1))\<rparr>,
                      positions = [(1, 0, 0), (0, 2, 0)],
                      rotations = [eye3, ((0, - 1, 0), (1, 0, 0), (0, 0, 1))]\<rparr>) ! 1,
    offset_y (poses \<lparr>pose = \<lparr>offset = (10, 20, 30), as_matrix = ((0, - 1, 0), (1, 0, 0), (0, 0, 1)),
                              rotate_row = mat_vec ((0, - 1, 0), (1, 0, 0), (0, 0, 1))\<rparr>,
                      positions = [(1, 0, 0), (0, 2, 0)],
                      rotations = [eye3, ((0, - 1, 0), (1, 0, 0), (0, 0, 1))]\<rparr>) ! 1,
    offset_z (poses \<lparr>pose = \<lparr>offset = (10, 20, 30), as_matrix = ((0, - 1, 0), (1, 0, 0), (0, 0, 1)),
                              rotate_row = mat_vec ((0, - 1, 0), (1, 0, 0), (0, 0, 1))\<rparr>,
                      positions = [(1, 0, 0), (0, 2, 0)],
                      rotations = [eye3, ((0, - 1, 0), (1, 0, 0), (0, 0, 1))]\<rparr>) ! 1)
     = (8, 20, 30) \<and>
   matrix (poses \<lparr>pose = \<lparr>offset = (10, 20, 30), as_matrix = ((0, - 1, 0), (1, 0, 0), (0, 0, 1)),
                              rotate_row = mat_vec ((0, - 1, 0), (1, 0, 0), (0, 0, 1))\<rparr>,
                      positions = [(1, 0, 0), (0, 2, 0)],
                      rotations = [eye3, ((0, - 1, 0), (1, 0, 0), (0, 0, 1))]\<rparr>) ! 1
     = ((- 1, 0, 0), (0, - 1, 0), (0, 0, 1))"
  using poses_transform_each_subunit
    [of 1 "\<lparr>pose = \<lparr>offset = (10, 20, 30), as_matrix = ((0, - 1, 0), (1, 0, 0), (0, 0, 1)),
                              rotate_row = mat_vec ((0, - 1, 0), (1, 0, 0), (0, 0, 1))\<rparr>,
                      positions = [(1, 0, 0), (0, 2, 0)],
                      rotations = [eye3, ((0, - 1, 0), (1, 0, 0), (0, 0, 1))]\<rparr>"]
  by simp
section \<open>Direct binning\<close>


lemma clip_in_range: "0 < s \<Longrightarrow> 0 \<le> clip i s \<and> clip i s < int s"
  by (auto simp: clip_def)


lemma clip_nearest: "0 \<le> j \<Longrightarrow> j < int s \<Longrightarrow> \<bar>i - clip i s\<bar> \<le> \<bar>i - j\<bar>"
  by (auto simp: clip_def min_def max_def)

lemma map2_same:
  "map2 F (map f xs) (map g xs) = map (\<lambda>x. F (f x) (g x)) xs"
  by (induction xs) auto

lemma flat_index_range:
  assumes "0 \<le> y" "y < int N2" "0 \<le> z" "z < int N3"
  shows "0 \<le> y * int N3 + z \<and> y * int N3 + z < int (N2 * N3)"
proof -
  have "y + 1 \<le> int N2" using assms by simp
  then have "(y + 1) * int N3 \<le> int N2 * int N3"
    by (rule mult_right_mono) simp
  then show ?thesis using assms by (simp add: algebra_simps)
qed

lemma flat_index_inj:
  assumes "0 \<le> z" "z < int N3" "j < N3"
  shows "y * int N3 + z = int (i * N3 + j) \<longleftrightarrow> y = int i \<and> z = int j"
proof
  assume eq: "y * int N3 + z = int (i * N3 + j)"
  have pos: "0 < int N3" using assms by simp
  have "(y * int N3 + z) div int N3 = y"
    using assms pos by simp
  moreover have "int (i * N3 + j) div int N3 = int i"
    using assms pos by (simp add: zdiv_int [symmetric] del: of_nat_add of_nat_mult)
  ultimately have "y = int i" using eq by simp
  with eq show "y = int i \<and> z = int j" by simp
next
  assume "y = int i \<and> z = int j"
  then show "y * int N3 + z = int (i * N3 + j)" by simp
qed

lemma sum_list_take_blocks:
  "sum_list (map (\<lambda>i. sum_list (take k (drop (i * k) xs))) [0..<n]) =
     sum_list (take (n * k) (xs :: real list))"
proof (induction n)
  case 0
  then show ?case by simp
next
  case (Suc n)
  have "Suc n * k = n * k + k" by simp
  then have "take (Suc n * k) xs = take (n * k) xs @ take k (drop (n * k) xs)"
    by (simp only: take_add)
  with Suc show ?case by simp
qed

lemma sum_image_reshape2:
  "length xs = N2 * N3 \<Longrightarrow> sum_image (reshape2 xs (N2, N3)) = sum_list xs"
  by (simp add: sum_image_def reshape2_def o_def sum_list_take_blocks)

lemma reshape2_nth:
  assumes "length xs = N2 * N3" "i < N2" "j < N3"
  shows "reshape2 xs (N2, N3) ! i ! j = xs ! (i * N3 + j)"
proof -
  have "Suc i * N3 \<le> N2 * N3" using assms(2) by (intro mult_le_mono1) simp
  then have "i * N3 + j < length xs" using assms by simp
  then show ?thesis using assms by (simp add: reshape2_def)
qed

lemma reshape2_shape:
  "length xs = N2 * N3 \<Longrightarrow>
     length (reshape2 xs (N2, N3)) = N2 \<and> (\<forall>row \<in> set (reshape2 xs (N2, N3)). length row = N3)"
proof -
  assume len: "length xs = N2 * N3"
  have "length (take N3 (drop (i * N3) xs)) = N3" if "i < N2" for i
  proof -
    have "Suc i * N3 \<le> N2 * N3" using that by (intro mult_le_mono1) simp
    then show ?thesis using len by simp
  qed
  then show ?thesis by (auto simp: reshape2_def)
qed

lemma sum_list_delta_upt:
  "sum_list (map (\<lambda>k. if v = int k then w else 0) [0..<n]) =
     (if 0 \<le> v \<and> v < int n then w else (0::real))"
proof (induction n)
  case 0
  then show ?case by simp
next
  case (Suc n)
  then show ?case by auto
qed

lemma sum_list_bins:
  fixes ps :: "('a \<times> real) list"
  shows "sum_list (map (\<lambda>k. sum_list (map snd (filter (\<lambda>p. h (fst p) = int k) ps))) [0..<n]) =
     sum_list (map snd (filter (\<lambda>p. 0 \<le> h (fst p) \<and> h (fst p) < int n) ps))"
proof (induction ps)
  case Nil
  then show ?case by simp
next
  case (Cons p ps)
  have split: "sum_list (map snd (filter (\<lambda>q. h (fst q) = int k) (p # ps))) =
          (if h (fst p) = int k then snd p else 0) +
             sum_list (map snd (filter (\<lambda>q. h (fst q) = int k) ps))" for k
    by simp
  have "sum_list (map (\<lambda>k. sum_list (map snd (filter (\<lambda>q. h (fst q) = int k) (p # ps)))) [0..<n]) =
        sum_list (map (\<lambda>k. if h (fst p) = int k then snd p else 0) [0..<n]) +
        sum_list (map (\<lambda>k. sum_list (map snd (filter (\<lambda>q. h (fst q) = int k) ps))) [0..<n])"
    by (simp only: split sum_list_addf)
  also have "\<dots> = (if 0 \<le> h (fst p) \<and> h (fst p) < int n then snd p else 0) +
        sum_list (map snd (filter (\<lambda>p. 0 \<le> h (fst p) \<and> h (fst p) < int n) ps))"
    by (simp only: sum_list_delta_upt Cons.IH)
  finally show ?case by simp
qed

lemma filter_zip_map1:
  "map snd (filter (\<lambda>p. P (fst p)) (zip (map h xs) ys)) =
     map snd (filter (\<lambda>p. P (h (fst p))) (zip xs ys))"
proof (induction xs arbitrary: ys)
  case Nil
  then show ?case by simp
next
  case (Cons x xs)
  then show ?case by (cases ys) auto
qed

lemma wrap32_id: "- 2147483648 \<le> i \<Longrightarrow> i < 2147483648 \<Longrightarrow> wrap32 i = i"
  by (simp add: wrap32_def)

lemma wrap32_less: "wrap32 i < 2147483648"
proof -
  have "(i + 2147483648) mod 4294967296 < 4294967296"
    by (rule pos_mod_bound) simp
  then show ?thesis by (simp add: wrap32_def)
qed

lemma astype_int_id: "- 2147483648 \<le> i \<Longrightarrow> i < 2147483648 \<Longrightarrow> astype_int i = i"
  by (simp add: astype_int_def)

lemma pixel_index_range: "0 < n \<Longrightarrow> 0 \<le> pixel_index v n \<and> pixel_index v n < int n"
  by (simp add: pixel_index_def clip_in_range)

lemma pixel_index_exact:
  assumes "- 2147483648 \<le> rint v" "rint v + int n div 2 < 2147483648"
  shows "pixel_index v n = clip (rint v + int n div 2) n"
proof -
  have "0 \<le> int n div 2" by simp
  then have r: "rint v < 2147483648" using assms(2) by linarith
  have "- 2147483648 \<le> rint v + int n div 2" using assms(1) \<open>0 \<le> int n div 2\<close> by linarith
  then show ?thesis
    using assms r by (simp add: pixel_index_def astype_int_id wrap32_id)
qed

lemma project_eq:
  assumes "length volume = length coords"
  shows "project volume coords (N2, N3) =
     Inr (reshape2
       (map (\<lambda>k. sum_list (map snd (filter
          (\<lambda>p. max (wrap32 (pixel_index (y_of (fst p)) N2 * int N3 +
                             pixel_index (z_of (fst p)) N3)) 0 = int k)
          (zip coords volume)))) [0..<N2 * N3]) (N2, N3))"
proof -
  have "bincount (map (\<lambda>c. wrap32 (pixel_index (y_of c) N2 * int N3 +
                               pixel_index (z_of c) N3)) coords) volume (N2 * N3) =
     Inr (map (\<lambda>k. sum_list (map snd (filter
          (\<lambda>p. max (wrap32 (pixel_index (y_of (fst p)) N2 * int N3 +
                             pixel_index (z_of (fst p)) N3)) 0 = int k)
          (zip coords volume)))) [0..<N2 * N3])"
    unfolding bincount_def using assms
    by (simp add: filter_zip_map1 [where P = "\<lambda>v. max v 0 = int k" for k])
  then show ?thesis
    by (simp add: project_def Let_def ravel_multi_index_def map2_same o_def pixel_index_def)
qed

lemma flat_index_bound:
  assumes "0 < N2" "0 < N3"
  shows "max (wrap32 (pixel_index y N2 * int N3 + pixel_index z N3)) 0 < int (N2 * N3)"
proof (cases "N2 * N3 < 2147483648")
  case True
  have r: "0 \<le> pixel_index y N2 * int N3 + pixel_index z N3 \<and>
           pixel_index y N2 * int N3 + pixel_index z N3 < int (N2 * N3)"
    using flat_index_range [of "pixel_index y N2" N2 "pixel_index z N3" N3]
      pixel_index_range [OF assms(1), of y] pixel_index_range [OF assms(2), of z] by blast
  moreover have "int (N2 * N3) < 2147483648" using True by linarith
  ultimately have "wrap32 (pixel_index y N2 * int N3 + pixel_index z N3) =
                     pixel_index y N2 * int N3 + pixel_index z N3"
    by (intro wrap32_id) linarith+
  with r show ?thesis by (simp add: max_def)
next
  case False
  then have "2147483648 \<le> int (N2 * N3)" by linarith
  then show ?thesis
    using wrap32_less [of "pixel_index y N2 * int N3 + pixel_index z N3"]
    unfolding max_less_iff_conj by linarith
qed

lemma project_pixel:
  assumes "length volume = length coords" "i < N2" "j < N3" "N2 * N3 < 2147483648"
    and "project volume coords (N2, N3) = Inr img"
  shows "img ! i ! j = sum_list (map snd (filter
          (\<lambda>p. pixel_index (y_of (fst p)) N2 = int i \<and> pixel_index (z_of (fst p)) N3 = int j)
          (zip coords volume)))"
proof -
  have pos: "0 < N2" "0 < N3" using assms by simp_all
  have "Suc i * N3 \<le> N2 * N3" using assms(2) by (intro mult_le_mono1) simp
  then have k: "i * N3 + j < N2 * N3" using assms(3) by simp
  have small: "int (N2 * N3) < 2147483648" using assms(4) by linarith
  have eqv: "(max (wrap32 (pixel_index y N2 * int N3 + pixel_index z N3)) 0 = int (i * N3 + j)) \<longleftrightarrow>
             (pixel_index y N2 = int i \<and> pixel_index z N3 = int j)" for y z
  proof -
    have r: "0 \<le> pixel_index y N2 * int N3 + pixel_index z N3 \<and>
           pixel_index y N2 * int N3 + pixel_index z N3 < int (N2 * N3)"
      using flat_index_range [of "pixel_index y N2" N2 "pixel_index z N3" N3]
        pixel_index_range [OF pos(1), of y] pixel_index_range [OF pos(2), of z] by blast
    then have w: "wrap32 (pixel_index y N2 * int N3 + pixel_index z N3) =
                     pixel_index y N2 * int N3 + pixel_index z N3"
      using small by (intro wrap32_id) linarith+
    have m: "max (pixel_index y N2 * int N3 + pixel_index z N3) 0 =
               pixel_index y N2 * int N3 + pixel_index z N3"
      using r by (intro max_absorb1) blast
    have z: "0 \<le> pixel_index z N3" "pixel_index z N3 < int N3"
      using pixel_index_range [OF pos(2), of z] by blast+
    show ?thesis
      unfolding w m by (rule flat_index_inj [OF z assms(3)])
  qed
  have "img ! i ! j = sum_list (map snd (filter
          (\<lambda>p. max (wrap32 (pixel_index (y_of (fst p)) N2 * int N3 +
                             pixel_index (z_of (fst p)) N3)) 0 = int (i * N3 + j))
          (zip coords volume)))"
    using assms(5) k assms(2,3) unfolding project_eq [OF assms(1)]
    by (auto simp: reshape2_nth simp del: of_nat_add of_nat_mult)
  then show ?thesis by (simp only: eqv)
qed

lemma project_shape:
  assumes "length volume = length coords" "project volume coords (N2, N3) = Inr img"
  shows "length img = N2 \<and> (\<forall>row \<in> set img. length row = N3)"
proof -
  let ?counts = "map (\<lambda>k. sum_list (map snd (filter
          (\<lambda>p. max (wrap32 (pixel_index (y_of (fst p)) N2 * int N3 +
                             pixel_index (z_of (fst p)) N3)) 0 = int k)
          (zip coords volume)))) [0..<N2 * N3]"
  have "img = reshape2 ?counts (N2, N3)"
    using assms(2) unfolding project_eq [OF assms(1)] by simp
  moreover have "length ?counts = N2 * N3" by simp
  ultimately show ?thesis using reshape2_shape [of ?counts N2 N3] by simp
qed

lemma project_sum:
  assumes "length volume = length coords" "project volume coords (N2, N3) = Inr img"
    and "coords = [] \<or> (0 < N2 \<and> 0 < N3)"
  shows "sum_image img = sum_list volume"
proof -
  let ?h = "\<lambda>c. max (wrap32 (pixel_index (y_of c) N2 * int N3 + pixel_index (z_of c) N3)) 0"
  have img: "img = reshape2 (map (\<lambda>k. sum_list (map snd (filter
          (\<lambda>p. ?h (fst p) = int k) (zip coords volume)))) [0..<N2 * N3]) (N2, N3)"
    using assms(2) unfolding project_eq [OF assms(1)] by simp
  have "sum_image img = sum_list (map (\<lambda>k. sum_list (map snd (filter
          (\<lambda>p. ?h (fst p) = int k) (zip coords volume)))) [0..<N2 * N3])"
    unfolding img by (rule sum_image_reshape2) simp
  also have "\<dots> = sum_list (map snd (filter
          (\<lambda>p. 0 \<le> ?h (fst p) \<and> ?h (fst p) < int (N2 * N3)) (zip coords volume)))"
    by (rule sum_list_bins)
  also have "filter (\<lambda>p. 0 \<le> ?h (fst p) \<and> ?h (fst p) < int (N2 * N3)) (zip coords volume) =
             zip coords volume"
  proof (rule filter_True, rule ballI)
    fix p assume "p \<in> set (zip coords volume)"
    then have "coords \<noteq> []" by auto
    with assms(3) have "0 < N2" "0 < N3" by simp_all
    from flat_index_bound [OF this] show "0 \<le> ?h (fst p) \<and> ?h (fst p) < int (N2 * N3)"
      by simp
  qed
  also have "sum_list (map snd (zip coords volume)) = sum_list volume"
    using assms(1) by simp
  finally show ?thesis .
qed



text \<open>
  C7 (as amended). For every input with one weight for every row of coordinates and an
  output shape with positive dimensions, also when rounded, shifted indices fall outside
  the image, \<open>project\<close> returns an image of the requested shape whose sum is the sum of
  all weights: no sample is dropped. When the shape has fewer than \<open>2\<^sup>3\<^sup>1\<close> pixels and no
  rounded or shifted index leaves the int32 range, pixel \<open>(i, j)\<close> is the sum of the
  weights of the points whose clipped indices are \<open>(i, j)\<close>, and a clipped index is the
  valid index nearest to the index.
\<close>

theorem project_clips_and_keeps_every_sample:
  assumes "length volume = length coords" "0 < N2" "0 < N3"
  shows "\<exists>img. project volume coords (N2, N3) = Inr img \<and>
           length img = N2 \<and> (\<forall>row \<in> set img. length row = N3) \<and>
           sum_image img = sum_list volume \<and>
           (N2 * N3 < 2147483648 \<and>
            (\<forall>c \<in> set coords.
                - 2147483648 \<le> rint (y_of c) \<and> rint (y_of c) + int N2 div 2 < 2147483648 \<and>
                - 2147483648 \<le> rint (z_of c) \<and> rint (z_of c) + int N3 div 2 < 2147483648) \<longrightarrow>
            (\<forall>i < N2. \<forall>j < N3.
               img ! i ! j = sum_list (map snd (filter
                 (\<lambda>p. clip (rint (y_of (fst p)) + int N2 div 2) N2 = int i \<and>
                      clip (rint (z_of (fst p)) + int N3 div 2) N3 = int j)
                 (zip coords volume))))) \<and>
           (\<forall>v. 0 \<le> clip v N2 \<and> clip v N2 < int N2 \<and>
                (\<forall>u. 0 \<le> u \<and> u < int N2 \<longrightarrow> \<bar>v - clip v N2\<bar> \<le> \<bar>v - u\<bar>)) \<and>
           (\<forall>v. 0 \<le> clip v N3 \<and> clip v N3 < int N3 \<and>
                (\<forall>u. 0 \<le> u \<and> u < int N3 \<longrightarrow> \<bar>v - clip v N3\<bar> \<le> \<bar>v - u\<bar>))"
proof -
  obtain img where img: "project volume coords (N2, N3) = Inr img"
    using project_eq [OF assms(1)] by blast
  have s: "sum_image img = sum_list volume"
    using project_sum [OF assms(1) img] assms(2,3) by simp
  have p: "\<forall>i < N2. \<forall>j < N3.
              img ! i ! j = sum_list (map snd (filter
                (\<lambda>p. clip (rint (y_of (fst p)) + int N2 div 2) N2 = int i \<and>
                     clip (rint (z_of (fst p)) + int N3 div 2) N3 = int j)
                (zip coords volume)))"
    if small: "N2 * N3 < 2147483648"
      and fit: "\<forall>c \<in> set coords.
                - 2147483648 \<le> rint (y_of c) \<and> rint (y_of c) + int N2 div 2 < 2147483648 \<and>
                - 2147483648 \<le> rint (z_of c) \<and> rint (z_of c) + int N3 div 2 < 2147483648"
  proof (intro allI impI)
    fix i j assume ij: "i < N2" "j < N3"
    have same: "filter (\<lambda>p. pixel_index (y_of (fst p)) N2 = int i \<and>
                          pixel_index (z_of (fst p)) N3 = int j) (zip coords volume) =
                filter (\<lambda>p. clip (rint (y_of (fst p)) + int N2 div 2) N2 = int i \<and>
                          clip (rint (z_of (fst p)) + int N3 div 2) N3 = int j) (zip coords volume)"
    proof (rule filter_cong [OF refl])
      fix p assume "p \<in> set (zip coords volume)"
      then have "fst p \<in> set coords" by (metis in_set_zipE prod.collapse)
      with fit have "pixel_index (y_of (fst p)) N2 = clip (rint (y_of (fst p)) + int N2 div 2) N2"
        "pixel_index (z_of (fst p)) N3 = clip (rint (z_of (fst p)) + int N3 div 2) N3"
        by (simp_all add: pixel_index_exact)
      then show "(pixel_index (y_of (fst p)) N2 = int i \<and> pixel_index (z_of (fst p)) N3 = int j) =
                 (clip (rint (y_of (fst p)) + int N2 div 2) N2 = int i \<and>
                  clip (rint (z_of (fst p)) + int N3 div 2) N3 = int j)"
        by simp
    qed
    show "img ! i ! j = sum_list (map snd (filter
                (\<lambda>p. clip (rint (y_of (fst p)) + int N2 div 2) N2 = int i \<and>
                     clip (rint (z_of (fst p)) + int N3 div 2) N3 = int j)
                (zip coords volume)))"
      using project_pixel [OF assms(1) ij small img] by (simp only: same)
  qed
  have c: "0 \<le> clip v s \<and> clip v s < int s \<and>
             (\<forall>u. 0 \<le> u \<and> u < int s \<longrightarrow> \<bar>v - clip v s\<bar> \<le> \<bar>v - u\<bar>)" if "0 < s" for v s
    using clip_in_range [OF that] clip_nearest by blast
  show ?thesis
    using img s p project_shape [OF assms(1) img] c [OF assms(2)] c [OF assms(3)] by blast
qed

theorem project_clips_and_keeps_every_sample_witness:
  "length [1, 2, 4 :: real] = length [(0, 100, - 100), (0, 1 / 2, 3 / 2), (0, - 7, 9 :: real)] \<and>
   (0::nat) < 2 \<and> (0::nat) < 3 \<and> (2::nat) * 3 < 2147483648 \<and>
   (\<exists>img. project [1, 2, 4] [(0, 100, - 100), (0, 1 / 2, 3 / 2), (0, - 7, 9)] (2, 3) = Inr img \<and>
      length img = 2 \<and> sum_image img = 7 \<and> img ! 1 ! 0 = 1 \<and> img ! 0 ! 2 = 4)"
proof -
  let ?cs = "[(0, 100, - 100), (0, 1 / 2, 3 / 2), (0, - 7, 9 :: real)]"
  have a: "length [1, 2, 4 :: real] = length ?cs"
    by simp
  have b: "(0::nat) < 2" and c: "(0::nat) < 3" by simp_all
  have d: "(2::nat) * 3 < 2147483648 \<and>
            (\<forall>c \<in> set ?cs.
                - 2147483648 \<le> rint (y_of c) \<and> rint (y_of c) + int 2 div 2 < 2147483648 \<and>
                - 2147483648 \<le> rint (z_of c) \<and> rint (z_of c) + int 3 div 2 < 2147483648)"
    by (simp add: rint_def Let_def)
  from project_clips_and_keeps_every_sample [OF a b c] d obtain img where
    img: "project [1, 2, 4] ?cs (2, 3) = Inr img"
      "length img = 2" "sum_image img = sum_list [1, 2, 4]"
    and px: "\<forall>i < 2. \<forall>j < 3.
               img ! i ! j = sum_list (map snd (filter
                 (\<lambda>p. clip (rint (y_of (fst p)) + int 2 div 2) 2 = int i \<and>
                      clip (rint (z_of (fst p)) + int 3 div 2) 3 = int j)
                 (zip ?cs [1, 2, 4])))"
    by blast
  have e1: "sum_list (map snd (filter
                 (\<lambda>p. clip (rint (y_of (fst p)) + int 2 div 2) 2 = int 1 \<and>
                      clip (rint (z_of (fst p)) + int 3 div 2) 3 = int 0)
                 (zip ?cs [1, 2, 4 :: real]))) = 1"
    by code_simp
  have e2: "sum_list (map snd (filter
                 (\<lambda>p. clip (rint (y_of (fst p)) + int 2 div 2) 2 = int 0 \<and>
                      clip (rint (z_of (fst p)) + int 3 div 2) 3 = int 2)
                 (zip ?cs [1, 2, 4 :: real]))) = 4"
    by code_simp
  from px have "(1::nat) < 2 \<longrightarrow> (0::nat) < 3 \<longrightarrow> img ! 1 ! 0 = sum_list (map snd (filter
                 (\<lambda>p. clip (rint (y_of (fst p)) + int 2 div 2) 2 = int 1 \<and>
                      clip (rint (z_of (fst p)) + int 3 div 2) 3 = int 0)
                 (zip ?cs [1, 2, 4])))"
    by blast
  then have p1: "img ! 1 ! 0 = 1" by (simp only: e1)
  from px have "(0::nat) < 2 \<longrightarrow> (2::nat) < 3 \<longrightarrow> img ! 0 ! 2 = sum_list (map snd (filter
                 (\<lambda>p. clip (rint (y_of (fst p)) + int 2 div 2) 2 = int 0 \<and>
                      clip (rint (z_of (fst p)) + int 3 div 2) 3 = int 2)
                 (zip ?cs [1, 2, 4])))"
    by blast
  then have p2: "img ! 0 ! 2 = 4" by (simp only: e2)
  from img p1 p2 have "\<exists>img. project [1, 2, 4] ?cs (2, 3) = Inr img \<and>
      length img = 2 \<and> sum_image img = 7 \<and> img ! 1 ! 0 = 1 \<and> img ! 0 ! 2 = 4"
    by auto
  with a b c d show ?thesis by blast
qed

text \<open>
  C7 as stated fails. Two weights for one row of coordinates make \<open>jnp.bincount\<close> raise.
  A point at \<open>y = 2\<^sup>3\<^sup>1\<close> on a shape of two rows has the shifted index \<open>2\<^sup>3\<^sup>1\<close>, nearest to
  row 1; the cast to int32 and the wrapped addition of \<open>N2 // 2\<close> put its weight in row 0.
  On a shape without rows the image is empty and the weight is gone.
\<close>

theorem project_raises_or_misplaces_counterexample:
  "project [1, 2] [(0, 0, 0)] (2, 3) = Inl WeightsValueError \<and>
   project [1] [(0, 2147483648, 0)] (2, 3) = Inr [[0, 1, 0], [0, 0, 0]] \<and>
   project [1] [(0, 0, 0)] (0, 3) = Inr []"
  by code_simp

section \<open>Projection by a non-uniform FFT\<close>

lemma ifftshift_shape:
  assumes "length F = M1" "\<forall>row \<in> set F. length row = M2"
  shows "length (ifftshift F) = M1 \<and> (\<forall>row \<in> set (ifftshift F). length row = M2)"
  using assms by (auto simp: ifftshift_def)

lemma ifftshift_nth:
  assumes "length F = M1" "\<forall>row \<in> set F. length row = M2" "i < M1" "j < M2"
  shows "ifftshift F ! i ! j = F ! ((i + M1 div 2) mod M1) ! ((j + M2 div 2) mod M2)"
proof -
  have row: "rotate (M1 div 2) F ! i = F ! ((i + M1 div 2) mod M1)"
    using assms(1,3) by (simp add: nth_rotate add.commute)
  have "(i + M1 div 2) mod M1 < length F" using assms(1,3) by simp
  then have len: "length (F ! ((i + M1 div 2) mod M1)) = M2"
    using assms(2) nth_mem by blast
  have "ifftshift F ! i = rotate (M2 div 2) (F ! ((i + M1 div 2) mod M1))"
    using assms(1,3) row len by (simp add: ifftshift_def)
  then show ?thesis using len assms(4) by (simp add: nth_rotate add.commute)
qed

lemma set_last_column_nth:
  assumes "i < length rows" "j < length (rows ! i)"
  shows "set_last_column rows v ! i ! j = (if j = length (rows ! i) - 1 then v else rows ! i ! j)"
  using assms by (simp add: set_last_column_def)

lemma set_last_column_shape:
  "length (set_last_column rows v) = length rows \<and>
   (\<forall>i < length rows. length (set_last_column rows v ! i) = length (rows ! i))"
  by (simp add: set_last_column_def)

lemma set_row_nth:
  assumes "i < length rows" "j < length (rows ! i)"
  shows "set_row rows k v ! i ! j = (if i = k then v else rows ! i ! j)"
  using assms by (auto simp: set_row_def nth_list_update)

lemma set_row_shape:
  "length (set_row rows k v) = length rows \<and>
   (\<forall>i < length rows. length (set_row rows k v ! i) = length (rows ! i))"
  by (simp add: set_row_def nth_list_update)

text \<open>
  C5. For a requested shape \<open>(M1, M2)\<close> with positive dimensions, where \<open>nufft1\<close> returns
  an array \<open>F\<close> of that shape, \<open>project_with_nufft\<close> returns an array of shape
  \<open>(M1, M2 div 2 + 1)\<close> whose corner entry is the centre entry \<open>F[M1 div 2][M2 div 2]\<close>, the
  zero-frequency mode; entry \<open>(i, j)\<close> is entry \<open>((i + M1 div 2) mod M1, (j + M2 div 2) mod M2)\<close>
  of \<open>F\<close> unless it is zeroed; if \<open>M2\<close> is even the last column is zero, and if \<open>M1\<close> is
  even row \<open>M1 div 2\<close> is zero.
\<close>

theorem project_with_nufft_shape_and_nyquist:
  assumes "0 < M1" "0 < M2"
    and "nufft1 (M1, M2) (map complex_of_real weights)
           (map (\<lambda>c. 2 * pi * snd (xy_of c) / real M2) coordinate_list)
           (map (\<lambda>c. 2 * pi * fst (xy_of c) / real M1) coordinate_list) eps (- 1) = F"
    and "length F = M1" "\<forall>row \<in> set F. length row = M2"
  shows "length (project_with_nufft nufft1 weights coordinate_list (M1, M2) eps) = M1 \<and>
    (\<forall>i < M1. length (project_with_nufft nufft1 weights coordinate_list (M1, M2) eps ! i)
        = M2 div 2 + 1) \<and>
    project_with_nufft nufft1 weights coordinate_list (M1, M2) eps ! 0 ! 0
        = F ! (M1 div 2) ! (M2 div 2) \<and>
    (\<forall>i < M1. \<forall>j < M2 div 2 + 1.
        project_with_nufft nufft1 weights coordinate_list (M1, M2) eps ! i ! j =
          (if (even M2 \<and> j = M2 div 2) \<or> (even M1 \<and> i = M1 div 2) then 0
           else F ! ((i + M1 div 2) mod M1) ! ((j + M2 div 2) mod M2))) \<and>
    (even M2 \<longrightarrow> (\<forall>i < M1.
        project_with_nufft nufft1 weights coordinate_list (M1, M2) eps ! i ! (M2 div 2) = 0)) \<and>
    (even M1 \<longrightarrow> (\<forall>j < M2 div 2 + 1.
        project_with_nufft nufft1 weights coordinate_list (M1, M2) eps ! (M1 div 2) ! j = 0))"
proof -
  define T where "T = map (take (M2 div 2 + 1)) (ifftshift F)"
  define U where "U = (if M2 mod 2 = 0 then set_last_column T 0 else T)"
  define V where "V = (if M1 mod 2 = 0 then set_row U (M1 div 2) 0 else U)"
  have P: "project_with_nufft nufft1 weights coordinate_list (M1, M2) eps = V"
    using assms(3)
    by (simp add: project_with_nufft_def Let_def o_def V_def U_def T_def del: ifftshift_def)
  have w: "M2 div 2 + 1 \<le> M2" using assms(2) by linarith
  have Tlen: "length T = M1"
    using ifftshift_shape [OF assms(4,5)] by (simp add: T_def)
  have Trow: "length (T ! i) = M2 div 2 + 1" if "i < M1" for i
  proof -
    have "length (ifftshift F ! i) = M2"
      using ifftshift_shape [OF assms(4,5)] that nth_mem by metis
    then show ?thesis
      using that ifftshift_shape [OF assms(4,5)] w by (simp add: T_def)
  qed
  have Tnth: "T ! i ! j = F ! ((i + M1 div 2) mod M1) ! ((j + M2 div 2) mod M2)"
    if "i < M1" "j < M2 div 2 + 1" for i j
  proof -
    have "j < M2" using that w by simp
    from ifftshift_nth [OF assms(4,5) that(1) this] show ?thesis
      using that ifftshift_shape [OF assms(4,5)] by (simp add: T_def)
  qed
  have Ulen: "length U = M1"
    using Tlen set_last_column_shape [of T 0] by (simp add: U_def)
  have Urow: "length (U ! i) = M2 div 2 + 1" if "i < M1" for i
    using Trow [OF that] Tlen that set_last_column_shape [of T 0] by (simp add: U_def)
  have Unth: "U ! i ! j = (if even M2 \<and> j = M2 div 2 then 0
                else F ! ((i + M1 div 2) mod M1) ! ((j + M2 div 2) mod M2))"
    if "i < M1" "j < M2 div 2 + 1" for i j
  proof -
    have a: "i < length T" and b: "j < length (T ! i)"
      using that Tlen Trow [OF that(1)] by simp_all
    show ?thesis
      using set_last_column_nth [OF a b, of 0] Tnth [OF that] Trow [OF that(1)]
      by (auto simp: U_def even_iff_mod_2_eq_zero)
  qed
  have Vlen: "length V = M1"
    using Ulen set_row_shape [of U "M1 div 2" 0] by (simp add: V_def)
  have Vrow: "length (V ! i) = M2 div 2 + 1" if "i < M1" for i
    using Urow [OF that] Ulen that set_row_shape [of U "M1 div 2" 0] by (simp add: V_def)
  have Vnth: "V ! i ! j = (if (even M2 \<and> j = M2 div 2) \<or> (even M1 \<and> i = M1 div 2) then 0
                else F ! ((i + M1 div 2) mod M1) ! ((j + M2 div 2) mod M2))"
    if "i < M1" "j < M2 div 2 + 1" for i j
  proof -
    have a: "i < length U" and b: "j < length (U ! i)"
      using that Ulen Urow [OF that(1)] by simp_all
    show ?thesis
      using set_row_nth [OF a b, of "M1 div 2" 0] Unth [OF that]
      by (auto simp: V_def even_iff_mod_2_eq_zero)
  qed
  have h1: "M1 div 2 < M1" using assms(1) by linarith
  have h2: "M2 div 2 < M2" using assms(2) by linarith
  have z1: "even M1 \<Longrightarrow> M1 div 2 \<noteq> 0" using assms(1) by auto
  have z2: "even M2 \<Longrightarrow> M2 div 2 \<noteq> 0" using assms(2) by auto
  have corner: "V ! 0 ! 0 = F ! (M1 div 2) ! (M2 div 2)"
    using Vnth [of 0 0] assms(1) h1 h2 z1 z2 by auto
  show ?thesis
    unfolding P using Vlen Vrow Vnth corner h1 by simp
qed


theorem project_with_nufft_shape_and_nyquist_witness:
  "(0::nat) < 2 \<and> (0::nat) < 4 \<and>
   length (project_with_nufft (\<lambda>_ _ _ _ _ _. [[1, 2, 3, 4], [5, 6, 7, 8]])
             [1] [Coords3D 0 0 0] (2, 4) (1 / 1000000)) = 2 \<and>
   length (project_with_nufft (\<lambda>_ _ _ _ _ _. [[1, 2, 3, 4], [5, 6, 7, 8]])
             [1] [Coords3D 0 0 0] (2, 4) (1 / 1000000) ! 1) = 3 \<and>
   project_with_nufft (\<lambda>_ _ _ _ _ _. [[1, 2, 3, 4], [5, 6, 7, 8]])
             [1] [Coords3D 0 0 0] (2, 4) (1 / 1000000) ! 0 ! 0 = 7 \<and>
   project_with_nufft (\<lambda>_ _ _ _ _ _. [[1, 2, 3, 4], [5, 6, 7, 8]])
             [1] [Coords3D 0 0 0] (2, 4) (1 / 1000000) ! 0 ! 2 = 0 \<and>
   project_with_nufft (\<lambda>_ _ _ _ _ _. [[1, 2, 3, 4], [5, 6, 7, 8]])
             [1] [Coords3D 0 0 0] (2, 4) (1 / 1000000) ! 1 ! 0 = 0"
proof -
  let ?F = "[[1, 2, 3, 4], [5, 6, 7, 8 :: complex]]"
  let ?P = "project_with_nufft (\<lambda>_ _ _ _ _ _. ?F) [1] [Coords3D 0 0 0] (2, 4) (1 / 1000000)"
  have a: "(0::nat) < 2" and b: "(0::nat) < 4" by simp_all
  have c: "(\<lambda>_ _ _ _ _ _. ?F) (2::nat, 4::nat) (map complex_of_real [1])
           (map (\<lambda>c. 2 * pi * snd (xy_of c) / real 4) [Coords3D 0 0 0])
           (map (\<lambda>c. 2 * pi * fst (xy_of c) / real 2) [Coords3D 0 0 0]) (1 / 1000000) (- 1 :: int) = ?F"
    by simp
  have d: "length ?F = 2" and e: "\<forall>row \<in> set ?F. length row = 4" by simp_all
  note th = project_with_nufft_shape_and_nyquist
    [where weights = "[1]" and coordinate_list = "[Coords3D 0 0 0]" and eps = "1 / 1000000",
     OF a b c d e]
  from th have l: "length ?P = 2" by (rule conjunct1)
  from th have "\<forall>i < 2. length (?P ! i) = 4 div 2 + 1" by (elim conjE)
  then have "(1::nat) < 2 \<longrightarrow> length (?P ! 1) = 4 div 2 + 1" by blast
  then have r: "length (?P ! 1) = 3" by simp
  from th have "?P ! 0 ! 0 = ?F ! (2 div 2) ! (4 div 2)" by (elim conjE)
  then have z: "?P ! 0 ! 0 = 7" by simp
  from th have "even (4::nat) \<longrightarrow> (\<forall>i < 2. ?P ! i ! (4 div 2) = 0)" by (elim conjE)
  then have "(0::nat) < 2 \<longrightarrow> ?P ! 0 ! (4 div 2) = 0" by simp
  then have col: "?P ! 0 ! 2 = 0" by simp
  from th have "even (2::nat) \<longrightarrow> (\<forall>j < 4 div 2 + 1. ?P ! (2 div 2) ! j = 0)" by (elim conjE)
  then have "(0::nat) < 4 div 2 + 1 \<longrightarrow> ?P ! (2 div 2) ! 0 = 0" by simp
  then have row: "?P ! 1 ! 0 = 0" by simp
  from a b l r z col row show ?thesis by blast
qed

section \<open>The Gaussian distribution\<close>

lemma Re_sum_list: "Re (sum_list zs) = sum_list (map Re zs)"
  by (induction zs) auto

lemma Re_residual_term: "Re (z * cnj z / complex_of_real v) = (cmod z)\<^sup>2 / v"
proof -
  have "z * cnj z = complex_of_real ((cmod z)\<^sup>2)"
    by (simp add: complex_mult_cnj cmod_power2)
  then have "z * cnj z / complex_of_real v = complex_of_real ((cmod z)\<^sup>2 / v)"
    by simp
  then show ?thesis by (simp only: Re_complex_of_real)
qed

lemma loss_terms:
  "map Re (map2 (\<lambda>z v. z / complex_of_real v) (map (\<lambda>z. z * cnj z) rs)
               (map (\<lambda>v. 2 * v) (map var fs))) =
   map (\<lambda>p. (cmod (fst p))\<^sup>2 / (2 * var (snd p))) (zip rs fs)"
proof (induction rs arbitrary: fs)
  case Nil
  then show ?case by simp
next
  case (Cons r rs)
  show ?case
  proof (cases fs)
    case Nil
    then show ?thesis by simp
  next
    case (Cons f fs')
    have "Re (r * cnj r / complex_of_real (2 * var f)) = (cmod r)\<^sup>2 / (2 * var f)"
      by (rule Re_residual_term)
    with Cons Cons.IH [of fs'] show ?thesis by simp
  qed
qed

text \<open>
  C9. \<open>log_probability\<close> raises the shape-validation error exactly when the shape of the
  observed image differs from the shape of the padded frequency grid with its last axis
  dropped. On a mismatch the error is the result whatever \<open>render\<close> and
  \<open>crop_and_apply_operators\<close> would do: they are not reached.
\<close>

theorem log_probability_raises_iff_shape_mismatch:
  "log_probability d observed = Inl ShapeValueError \<longleftrightarrow>
     shape observed \<noteq> shape (padded_frequency_grid_in_angstroms (pipeline d))"
  by (auto simp: log_probability_def Let_def and_then_def external_def elementwise_def
      split: sum.splits)

text \<open>
  C3. For an observed image of the shape of the padded frequency grid, where \<open>render\<close>
  returns an image of that shape and \<open>crop_and_apply_operators\<close> maps the residual
  (rendered minus observed) to an array of the shape of the cropped frequency grid,
  \<open>log_probability\<close> is the sum over the cropped grid of \<open>|residual|\<^sup>2 / (2 * variance(freq))\<close>
  divided by the number of modes of the cropped grid.
\<close>

theorem log_probability_value:
  assumes "shape observed = shape (padded_frequency_grid_in_angstroms (pipeline d))"
    and "render (pipeline d) False False = Inr rendered"
    and "shape rendered = shape observed"
    and "crop_and_apply_operators (pipeline d)
           \<lparr>shape = shape rendered, data = map2 (\<lambda>z w. z - w) (data rendered) (data observed)\<rparr>
           (Some False) = Inr residuals"
    and "shape residuals = shape (frequency_grid_in_angstroms (pipeline d))"
  shows "log_probability d observed =
     Inr (sum_list (map (\<lambda>p. (cmod (fst p))\<^sup>2 / (2 * variance d (snd p)))
                     (zip (data residuals) (data (frequency_grid_in_angstroms (pipeline d)))))
          / real (size_of (frequency_grid_in_angstroms (pipeline d))))"
proof -
  have "log_probability d observed =
     Inr (Re (sum_list (map2 (\<lambda>z v. z / complex_of_real v) (map (\<lambda>z. z * cnj z) (data residuals))
               (map (\<lambda>v. 2 * v) (map (variance d)
                  (data (frequency_grid_in_angstroms (pipeline d)))))))
          / real (size_of residuals))"
    using assms
    by (simp add: log_probability_def Let_def and_then_def external_def elementwise_def
        map_array_def)
  also have "size_of residuals = size_of (frequency_grid_in_angstroms (pipeline d))"
    using assms(5) by (simp add: size_of_def)
  finally show ?thesis
    by (simp only: Re_sum_list loss_terms)
qed

theorem log_probability_value_witness:
  "shape \<lparr>shape = [2], data = [\<i>, 1]\<rparr> = shape (padded_frequency_grid_in_angstroms (pipeline \<lparr>pipeline = \<lparr>padded_frequency_grid_in_angstroms = \<lparr>shape = [2], data = [(0, 0), (1, 0)]\<rparr>,
                        frequency_grid_in_angstroms = \<lparr>shape = [1], data = [(0, 0)]\<rparr>,
                        render = (\<lambda>_ _. Inr \<lparr>shape = [2], data = [Complex 3 5, 7]\<rparr>),
                        crop_and_apply_operators =
                          (\<lambda>img _. Inr \<lparr>shape = [1], data = take 1 (data img)\<rparr>)\<rparr>,
           variance = (\<lambda>_. 2)\<rparr>)) \<and>
   render (pipeline \<lparr>pipeline = \<lparr>padded_frequency_grid_in_angstroms = \<lparr>shape = [2], data = [(0, 0), (1, 0)]\<rparr>,
                        frequency_grid_in_angstroms = \<lparr>shape = [1], data = [(0, 0)]\<rparr>,
                        render = (\<lambda>_ _. Inr \<lparr>shape = [2], data = [Complex 3 5, 7]\<rparr>),
                        crop_and_apply_operators =
                          (\<lambda>img _. Inr \<lparr>shape = [1], data = take 1 (data img)\<rparr>)\<rparr>,
           variance = (\<lambda>_. 2)\<rparr>) False False = Inr \<lparr>shape = [2], data = [Complex 3 5, 7]\<rparr> \<and>
   log_probability \<lparr>pipeline = \<lparr>padded_frequency_grid_in_angstroms = \<lparr>shape = [2], data = [(0, 0), (1, 0)]\<rparr>,
                        frequency_grid_in_angstroms = \<lparr>shape = [1], data = [(0, 0)]\<rparr>,
                        render = (\<lambda>_ _. Inr \<lparr>shape = [2], data = [Complex 3 5, 7]\<rparr>),
                        crop_and_apply_operators =
                          (\<lambda>img _. Inr \<lparr>shape = [1], data = take 1 (data img)\<rparr>)\<rparr>,
           variance = (\<lambda>_. 2)\<rparr> \<lparr>shape = [2], data = [\<i>, 1]\<rparr> = Inr (25 / 4)"
proof -
  let ?d = "\<lparr>pipeline = \<lparr>padded_frequency_grid_in_angstroms = \<lparr>shape = [2], data = [(0, 0), (1, 0)]\<rparr>,
                        frequency_grid_in_angstroms = \<lparr>shape = [1], data = [(0, 0)]\<rparr>,
                        render = (\<lambda>_ _. Inr \<lparr>shape = [2], data = [Complex 3 5, 7]\<rparr>),
                        crop_and_apply_operators =
                          (\<lambda>img _. Inr \<lparr>shape = [1], data = take 1 (data img)\<rparr>)\<rparr>,
           variance = (\<lambda>_. 2)\<rparr>"
  let ?o = "\<lparr>shape = [2], data = [\<i>, 1]\<rparr>"
  have a: "shape ?o = shape (padded_frequency_grid_in_angstroms (pipeline ?d))" by simp
  have b: "render (pipeline ?d) False False = Inr \<lparr>shape = [2], data = [Complex 3 5, 7]\<rparr>"
    by simp
  have c: "shape \<lparr>shape = [2], data = [Complex 3 5, 7]\<rparr> = shape ?o" by simp
  have e: "crop_and_apply_operators (pipeline ?d)
           \<lparr>shape = shape \<lparr>shape = [2], data = [Complex 3 5, 7]\<rparr>,
              data = map2 (\<lambda>z w. z - w) (data \<lparr>shape = [2::nat], data = [Complex 3 5, 7]\<rparr>) (data ?o)\<rparr>
           (Some False) = Inr \<lparr>shape = [1], data = [Complex 3 4]\<rparr>"
    by (simp add: complex_eq_iff)
  have f: "shape \<lparr>shape = [1::nat], data = [Complex 3 4]\<rparr> =
             shape (frequency_grid_in_angstroms (pipeline ?d))" by simp
  have "log_probability ?d ?o = Inr (25 / 4)"
    using log_probability_value [OF a b c e f]
    by (simp add: size_of_def cmod_power2)
  with a b show ?thesis by blast
qed

text \<open>
  C1. \<open>sample\<close> multiplies the normal draw of a mode by the variance at the mode, not by
  its square root: with the variance 4, the draw 1 and the rendered value 0 the sample is
  4, where a noise of standard deviation \<open>sqrt 4\<close> gives 2.
\<close>

theorem sample_scales_noise_by_variance:
  "sample \<lparr>pipeline = \<lparr>padded_frequency_grid_in_angstroms = \<lparr>shape = [1], data = [(0, 0)]\<rparr>,
                        frequency_grid_in_angstroms = \<lparr>shape = [1], data = [(0, 0)]\<rparr>,
                        render = (\<lambda>_ _. Inr \<lparr>shape = [1], data = [0]\<rparr>),
                        crop_and_apply_operators = (\<lambda>img _. Inr img)\<rparr>,
           variance = (\<lambda>_. 4)\<rparr> (\<lambda>_ _. 1) 0 None
     = Inr \<lparr>shape = [1], data = [4]\<rparr> \<and>
   sample \<lparr>pipeline = \<lparr>padded_frequency_grid_in_angstroms = \<lparr>shape = [1], data = [(0, 0)]\<rparr>,
                        frequency_grid_in_angstroms = \<lparr>shape = [1], data = [(0, 0)]\<rparr>,
                        render = (\<lambda>_ _. Inr \<lparr>shape = [1], data = [0]\<rparr>),
                        crop_and_apply_operators = (\<lambda>img _. Inr img)\<rparr>,
           variance = (\<lambda>_. 4)\<rparr> (\<lambda>_ _. 1) 0 None
     \<noteq> Inr \<lparr>shape = [1], data = [0 + complex_of_real (sqrt 4 * 1)]\<rparr>"
  by (simp add: sample_def Let_def and_then_def external_def elementwise_def map_array_def
      jr_normal_def)

end
